theory Spec2Isabelle
  imports Main "HOL-Library.Sublist" "HOL-Library.Word"
begin

section \<open>The gosec SARIF fixer (.github/scripts/fix-gosec-sarif.py)\<close>

text \<open>
  The script reads a JSON document, deletes the key \<open>fixes\<close> from every element of
  \<open>runs[*].results[*]\<close>, and writes the document back; when anything raises, it copies
  the raw input to the output path and re-raises.

  The embedding follows the script line by line. Python values that \<open>json.load\<close> can
  return are the datatype \<open>json\<close>; a \<open>dict\<close> is an association list in insertion
  order (a parsed dict has every key once); exceptions are values of \<open>pyexn\<close>, and a
  computation that may raise returns \<open>pyexn + 'a\<close>. The file system and the two console
  streams are the record \<open>world\<close>, passed through explicitly. The parser and the
  serialiser of the \<open>json\<close> module are not part of the repository: they are the two
  fields of the parameter \<open>jsonlib\<close>.
\<close>

subsection \<open>Values and exceptions\<close>

text \<open>A Python \<open>float\<close> is kept as its 64 bits; no operation of the script looks at it.\<close>

datatype json =
    JNull
  | JBool bool
  | JInt int
  | JFloat "64 word"
  | JStr string
  | JArr "json list"
  | JObj "(string \<times> json) list"

datatype pyexn =
    FileNotFoundError
  | PermissionError
  | SameFileError
  | JSONDecodeError
  | UnicodeDecodeError
  | AttributeError
  | TypeError

subsection \<open>Lines 31 to 36: the two nested loops\<close>

text \<open>\<open>'fixes' in s\<close> on a \<open>str\<close> is the substring test.\<close>

fun str_contains :: "string \<Rightarrow> string \<Rightarrow> bool" where
  "str_contains [] p = (p = [])"
| "str_contains (c # s) p = (prefix p (c # s) \<or> str_contains s p)"

text \<open>\<open>del result['fixes']\<close> on a dict: the binding is removed, the other bindings keep
  their order.\<close>

definition dict_del :: "string \<Rightarrow> (string \<times> json) list \<Rightarrow> (string \<times> json) list" where
  "dict_del k kvs = filter (\<lambda>kv. fst kv \<noteq> k) kvs"

text \<open>Storing a value under a key that the dict already has keeps the key's position.\<close>

fun dict_set :: "string \<Rightarrow> json \<Rightarrow> (string \<times> json) list \<Rightarrow> (string \<times> json) list" where
  "dict_set k v [] = [(k, v)]"
| "dict_set k v (kv # kvs) = (if fst kv = k then (k, v) # kvs else kv # dict_set k v kvs)"

text \<open>
  What a \<open>for\<close> loop iterates over: the elements of a list, the keys of a dict, the
  one-character strings of a str; any other value is not iterable.
\<close>

fun py_iter :: "json \<Rightarrow> pyexn + json list" where
  "py_iter (JArr xs) = Inr xs"
| "py_iter (JObj kvs) = Inr (map (\<lambda>kv. JStr (fst kv)) kvs)"
| "py_iter (JStr s) = Inr (map (\<lambda>c. JStr [c]) s)"
| "py_iter _ = Inl TypeError"

text \<open>
  Lines 34 to 36 on one element of \<open>results\<close>, with the counter. On a dict, \<open>in\<close> tests
  the keys and \<open>del\<close> removes the binding. On a list \<open>in\<close> compares the elements with
  \<open>'fixes'\<close>, on a str it is the substring test, and in both cases \<open>del\<close> then raises
  \<open>TypeError\<close>. On \<open>None\<close>, a bool or a number \<open>in\<close> itself raises \<open>TypeError\<close>.
\<close>

fun fix_result :: "json \<Rightarrow> nat \<Rightarrow> pyexn + (json \<times> nat)" where
  "fix_result (JObj kvs) fixed_count =
     (if ''fixes'' \<in> set (map fst kvs)
      then Inr (JObj (dict_del ''fixes'' kvs), fixed_count + 1)
      else Inr (JObj kvs, fixed_count))"
| "fix_result (JArr xs) fixed_count =
     (if JStr ''fixes'' \<in> set xs then Inl TypeError else Inr (JArr xs, fixed_count))"
| "fix_result (JStr s) fixed_count =
     (if str_contains s ''fixes'' then Inl TypeError else Inr (JStr s, fixed_count))"
| "fix_result v fixed_count = Inl TypeError"

text \<open>The inner loop (line 33): the elements in order, stopping at the first exception.\<close>

fun results_loop :: "json list \<Rightarrow> nat \<Rightarrow> pyexn + (json list \<times> nat)" where
  "results_loop [] fixed_count = Inr ([], fixed_count)"
| "results_loop (result # rest) fixed_count =
     (case fix_result result fixed_count of
        Inl e \<Rightarrow> Inl e
      | Inr (result', c) \<Rightarrow>
          (case results_loop rest c of
             Inl e \<Rightarrow> Inl e
           | Inr (rest', c') \<Rightarrow> Inr (result' # rest', c')))"

text \<open>
  The body of the outer loop on one element of \<open>runs\<close>: \<open>run.get('results', [])\<close>
  needs a dict (anything else has no \<open>get\<close>: \<open>AttributeError\<close>); an absent key gives a
  fresh empty list. The elements of a list are mutated in place, so the run holds the
  new list; the keys of a dict and the characters of a str are strings, which the loop
  can only leave alone or raise on.
\<close>

fun fix_run :: "json \<Rightarrow> nat \<Rightarrow> pyexn + (json \<times> nat)" where
  "fix_run (JObj kvs) fixed_count =
     (case map_of kvs ''results'' of
        None \<Rightarrow> Inr (JObj kvs, fixed_count)
      | Some rv \<Rightarrow>
          (case py_iter rv of
             Inl e \<Rightarrow> Inl e
           | Inr items \<Rightarrow>
               (case results_loop items fixed_count of
                  Inl e \<Rightarrow> Inl e
                | Inr (items', c) \<Rightarrow>
                    (case rv of
                       JArr xs \<Rightarrow> Inr (JObj (dict_set ''results'' (JArr items') kvs), c)
                     | _ \<Rightarrow> Inr (JObj kvs, c)))))"
| "fix_run v fixed_count = Inl AttributeError"

text \<open>The outer loop (line 32).\<close>

fun runs_loop :: "json list \<Rightarrow> nat \<Rightarrow> pyexn + (json list \<times> nat)" where
  "runs_loop [] fixed_count = Inr ([], fixed_count)"
| "runs_loop (run # rest) fixed_count =
     (case fix_run run fixed_count of
        Inl e \<Rightarrow> Inl e
      | Inr (run', c) \<Rightarrow>
          (case runs_loop rest c of
             Inl e \<Rightarrow> Inl e
           | Inr (rest', c') \<Rightarrow> Inr (run' # rest', c')))"

text \<open>
  Lines 31 to 36 on the parsed document: the counter starts at 0, \<open>data.get('runs', [])\<close>
  needs a dict and defaults to an empty list. The result is the mutated document and the
  counter.
\<close>

fun fix_data :: "json \<Rightarrow> pyexn + (json \<times> nat)" where
  "fix_data (JObj kvs) =
     (case map_of kvs ''runs'' of
        None \<Rightarrow> Inr (JObj kvs, 0)
      | Some rv \<Rightarrow>
          (case py_iter rv of
             Inl e \<Rightarrow> Inl e
           | Inr items \<Rightarrow>
               (case runs_loop items 0 of
                  Inl e \<Rightarrow> Inl e
                | Inr (items', c) \<Rightarrow>
                    (case rv of
                       JArr xs \<Rightarrow> Inr (JObj (dict_set ''runs'' (JArr items') kvs), c)
                     | _ \<Rightarrow> Inr (JObj kvs, c)))))"
| "fix_data v = Inl AttributeError"

subsection \<open>Files, console and the json module\<close>

text \<open>
  A path names at most one regular file, whose text is a string; two paths are the same
  file exactly when they are equal. \<open>readable\<close> and \<open>writable\<close> say whether \<open>open\<close>
  succeeds on a path for reading and for writing (creating or truncating). An \<open>open\<close>
  that succeeds is followed by a complete read or write. Each \<open>print\<close> succeeds and
  appends one line to \<open>console\<close>, tagged with its stream; the text of an exception
  inside a line is the exception itself.

  \<open>json_load\<close> is \<open>json.load\<close> on the text of the file: the parsed value, or the
  exception it raises. \<open>json_dump\<close> is the text \<open>json.dump(data, f, indent=2)\<close>
  writes; on a value that came out of the parser it does not raise.
\<close>

type_synonym path = string

datatype stream = Stdout | Stderr

datatype message =
    ErrorFixing pyexn
  | CopiedRaw path
  | FailedCopy pyexn
  | InputNotFound path
  | FixedFormat nat
  | FailedToFix pyexn

record world =
  files :: "path \<rightharpoonup> string"
  readable :: "path \<Rightarrow> bool"
  writable :: "path \<Rightarrow> bool"
  console :: "(stream \<times> message) list"

record jsonlib =
  json_load :: "string \<Rightarrow> pyexn + json"
  json_dump :: "json \<Rightarrow> string"

definition print :: "stream \<Rightarrow> message \<Rightarrow> world \<Rightarrow> world" where
  "print st m w = w\<lparr>console := console w @ [(st, m)]\<rparr>"

definition read_file :: "path \<Rightarrow> world \<Rightarrow> pyexn + string" where
  "read_file p w =
     (case files w p of
        None \<Rightarrow> Inl FileNotFoundError
      | Some s \<Rightarrow> if readable w p then Inr s else Inl PermissionError)"

definition write_file :: "path \<Rightarrow> string \<Rightarrow> world \<Rightarrow> pyexn + world" where
  "write_file p s w =
     (if writable w p then Inr (w\<lparr>files := (files w)(p \<mapsto> s)\<rparr>) else Inl PermissionError)"

text \<open>\<open>shutil.copy\<close>: refuses to copy a file onto itself, then opens the source, then
  the destination.\<close>

definition shutil_copy :: "path \<Rightarrow> path \<Rightarrow> world \<Rightarrow> pyexn + world" where
  "shutil_copy src dst w =
     (if src = dst \<and> files w src \<noteq> None then Inl SameFileError
      else (case read_file src w of
              Inl e \<Rightarrow> Inl e
            | Inr s \<Rightarrow> write_file dst s w))"

subsection \<open>\<open>fix_gosec_sarif\<close> and \<open>main\<close>\<close>

text \<open>The body of the \<open>try\<close> (lines 28 to 41): the exception or the count, and the world
  it leaves.\<close>

definition try_body :: "jsonlib \<Rightarrow> path \<Rightarrow> path \<Rightarrow> world \<Rightarrow> (pyexn + nat) \<times> world" where
  "try_body lib input_file output_file w =
     (case read_file input_file w of
        Inl e \<Rightarrow> (Inl e, w)
      | Inr text \<Rightarrow>
          (case json_load lib text of
             Inl e \<Rightarrow> (Inl e, w)
           | Inr data \<Rightarrow>
               (case fix_data data of
                  Inl e \<Rightarrow> (Inl e, w)
                | Inr (data', fixed_count) \<Rightarrow>
                    (case write_file output_file (json_dump lib data') w of
                       Inl e \<Rightarrow> (Inl e, w)
                     | Inr w' \<Rightarrow> (Inr fixed_count, w')))))"

text \<open>The handler (lines 43 to 51): report, try the raw copy, report how that went,
  re-raise the exception that was caught.\<close>

definition except_handler :: "pyexn \<Rightarrow> path \<Rightarrow> path \<Rightarrow> world \<Rightarrow> (pyexn + nat) \<times> world" where
  "except_handler e input_file output_file w =
     (let w1 = print Stderr (ErrorFixing e) w in
      (case shutil_copy input_file output_file w1 of
         Inr w2 \<Rightarrow> (Inl e, print Stderr (CopiedRaw output_file) w2)
       | Inl copy_error \<Rightarrow> (Inl e, print Stderr (FailedCopy copy_error) w1)))"

definition fix_gosec_sarif :: "jsonlib \<Rightarrow> path \<Rightarrow> path \<Rightarrow> world \<Rightarrow> (pyexn + nat) \<times> world" where
  "fix_gosec_sarif lib input_file output_file w =
     (case try_body lib input_file output_file w of
        (Inr fixed_count, w') \<Rightarrow> (Inr fixed_count, w')
      | (Inl e, w') \<Rightarrow> except_handler e input_file output_file w')"

text \<open>\<open>main\<close> returns the exit status. \<open>sys.exit(0)\<close> inside the \<open>try\<close> raises
  \<open>SystemExit\<close>, which \<open>except Exception\<close> does not catch.\<close>

definition main :: "jsonlib \<Rightarrow> world \<Rightarrow> int \<times> world" where
  "main lib w =
     (let input_file = ''gosec-raw.sarif''; output_file = ''gosec.sarif'' in
      if files w input_file = None
      then (1, print Stderr (InputNotFound input_file) w)
      else (case fix_gosec_sarif lib input_file output_file w of
              (Inr fixed_count, w') \<Rightarrow> (0, print Stdout (FixedFormat fixed_count) w')
            | (Inl e, w') \<Rightarrow> (1, print Stderr (FailedToFix e) w')))"

subsection \<open>The document as the specification describes it\<close>

text \<open>
  The specification's data model: the value under \<open>runs\<close> is a sequence of run objects,
  the value under \<open>results\<close> of a run is a sequence of result objects, and an absent key
  stands for the empty sequence. The definitions below follow those words; they are
  compared with the loops above.
\<close>

fun field :: "string \<Rightarrow> json \<Rightarrow> json option" where
  "field k (JObj kvs) = map_of kvs k"
| "field k v = None"

fun keys :: "json \<Rightarrow> string list" where
  "keys (JObj kvs) = map fst kvs"
| "keys v = []"

fun elements :: "json option \<Rightarrow> json list" where
  "elements (Some (JArr xs)) = xs"
| "elements v = []"

definition runs_of :: "json \<Rightarrow> json list" where
  "runs_of d = elements (field ''runs'' d)"

definition results_of :: "json \<Rightarrow> json list" where
  "results_of run = elements (field ''results'' run)"

definition result_objects :: "json \<Rightarrow> json list" where
  "result_objects d = concat (map results_of (runs_of d))"

definition has_fixes :: "json \<Rightarrow> bool" where
  "has_fixes x = (''fixes'' \<in> set (keys x))"

definition count_fixes :: "json \<Rightarrow> nat" where
  "count_fixes d = length (filter has_fixes (result_objects d))"

fun is_object :: "json \<Rightarrow> bool" where
  "is_object (JObj kvs) = True"
| "is_object v = False"

fun absent_or_objects :: "json option \<Rightarrow> bool" where
  "absent_or_objects None = True"
| "absent_or_objects (Some (JArr xs)) = list_all is_object xs"
| "absent_or_objects (Some v) = False"

text \<open>A document of the data model: an object whose \<open>runs\<close>, when present, is a
  sequence of objects, each of whose \<open>results\<close>, when present, is a sequence of objects.\<close>

definition sarif_shaped :: "json \<Rightarrow> bool" where
  "sarif_shaped d =
     (is_object d \<and> absent_or_objects (field ''runs'' d) \<and>
      list_all (\<lambda>run. absent_or_objects (field ''results'' run)) (runs_of d))"

text \<open>The document with \<open>fixes\<close> deleted from every result object and nothing else
  touched.\<close>

fun strip_result :: "json \<Rightarrow> json" where
  "strip_result (JObj kvs) = JObj (dict_del ''fixes'' kvs)"
| "strip_result v = v"

fun strip_run :: "json \<Rightarrow> json" where
  "strip_run (JObj kvs) =
     (case map_of kvs ''results'' of
        Some (JArr xs) \<Rightarrow> JObj (dict_set ''results'' (JArr (map strip_result xs)) kvs)
      | _ \<Rightarrow> JObj kvs)"
| "strip_run v = v"

fun strip_doc :: "json \<Rightarrow> json" where
  "strip_doc (JObj kvs) =
     (case map_of kvs ''runs'' of
        Some (JArr rs) \<Rightarrow> JObj (dict_set ''runs'' (JArr (map strip_run rs)) kvs)
      | _ \<Rightarrow> JObj kvs)"
| "strip_doc v = v"

text \<open>A sequence is a JSON array.\<close>

fun is_sequence :: "json \<Rightarrow> bool" where
  "is_sequence (JArr xs) = True"
| "is_sequence v = False"

text \<open>The values a \<open>for\<close> loop accepts.\<close>

fun is_iterable :: "json \<Rightarrow> bool" where
  "is_iterable (JArr xs) = True"
| "is_iterable (JObj kvs) = True"
| "is_iterable (JStr s) = True"
| "is_iterable v = False"

subsection \<open>Concrete documents, modules and worlds\<close>

text \<open>
  For evaluating the script on concrete inputs: a json module that knows finitely many
  texts and the document of each, and a world given by its files and the paths that
  cannot be opened for writing. The texts are written without their double quotes.
\<close>

definition table_lib :: "(string \<times> json) list \<Rightarrow> jsonlib" where
  "table_lib tab =
     \<lparr>json_load = (\<lambda>s. case map_of tab s of Some d \<Rightarrow> Inr d | None \<Rightarrow> Inl JSONDecodeError),
      json_dump = (\<lambda>d. case map_of (map (\<lambda>sd. (snd sd, fst sd)) tab) d of Some s \<Rightarrow> s | None \<Rightarrow> [])\<rparr>"

definition world_of :: "(path \<times> string) list \<Rightarrow> path list \<Rightarrow> world" where
  "world_of fs locked =
     \<lparr>files = map_of fs, readable = (\<lambda>p. True), writable = (\<lambda>p. p \<notin> set locked), console = []\<rparr>"

text \<open>The example of the specification: one run, two results, the first with \<open>fixes\<close>.\<close>

definition example_input :: json where
  "example_input =
     JObj [(''runs'', JArr [JObj [(''results'', JArr
       [JObj [(''ruleId'', JStr ''G101''),
              (''fixes'', JArr [JObj [(''description'', JStr ''x'')]])],
        JObj [(''ruleId'', JStr ''G102'')]])]])]"

definition example_output :: json where
  "example_output =
     JObj [(''runs'', JArr [JObj [(''results'', JArr
       [JObj [(''ruleId'', JStr ''G101'')],
        JObj [(''ruleId'', JStr ''G102'')]])]])]"

definition example_lib :: jsonlib where
  "example_lib =
     table_lib [(''{runs:[{results:[{ruleId:G101,fixes:[{description:x}]},{ruleId:G102}]}]}'',
                 example_input),
                (''{runs:[{results:[{ruleId:G101},{ruleId:G102}]}]}'', example_output)]"

definition example_world :: world where
  "example_world =
     world_of [(''gosec-raw.sarif'',
                ''{runs:[{results:[{ruleId:G101,fixes:[{description:x}]},{ruleId:G102}]}]}'')] []"

text \<open>
  A report with two runs. The first has two results, one with \<open>fixes\<close>, and the key
  \<open>fixes\<close> also at the top level, on the run, inside the run's \<open>tool\<close> and inside the
  first result's \<open>properties\<close>; the second run has no \<open>results\<close>.
\<close>

definition report_input :: json where
  "report_input =
     JObj [(''version'', JStr ''2.1.0''),
           (''fixes'', JStr ''top''),
           (''runs'', JArr
              [JObj [(''tool'', JObj [(''fixes'', JInt 1)]),
                     (''fixes'', JArr []),
                     (''results'', JArr
                        [JObj [(''ruleId'', JStr ''G101''),
                               (''fixes'', JArr [JObj [(''description'', JStr ''x'')]]),
                               (''properties'', JObj [(''fixes'', JBool True)])],
                         JObj [(''ruleId'', JStr ''G102'')]])],
               JObj [(''tool'', JObj [])]])]"

definition report_output :: json where
  "report_output =
     JObj [(''version'', JStr ''2.1.0''),
           (''fixes'', JStr ''top''),
           (''runs'', JArr
              [JObj [(''tool'', JObj [(''fixes'', JInt 1)]),
                     (''fixes'', JArr []),
                     (''results'', JArr
                        [JObj [(''ruleId'', JStr ''G101''),
                               (''properties'', JObj [(''fixes'', JBool True)])],
                         JObj [(''ruleId'', JStr ''G102'')]])],
               JObj [(''tool'', JObj [])]])]"

definition report_text :: string where
  "report_text = ''{version:2.1.0,fixes:top,runs:[{tool:{fixes:1},fixes:[],results:[{ruleId:G101,fixes:[{description:x}],properties:{fixes:true}},{ruleId:G102}]},{tool:{}}]}''"

definition report_fixed_text :: string where
  "report_fixed_text = ''{version:2.1.0,fixes:top,runs:[{tool:{fixes:1},fixes:[],results:[{ruleId:G101,properties:{fixes:true}},{ruleId:G102}]},{tool:{}}]}''"

definition report_lib :: jsonlib where
  "report_lib = table_lib [(report_text, report_input), (report_fixed_text, report_output)]"

definition report_world :: world where
  "report_world = world_of [(''gosec-raw.sarif'', report_text)] []"

section \<open>Properties\<close>

subsection \<open>Dicts\<close>

lemma dict_set_keys: "k \<in> set (map fst kvs) \<Longrightarrow> map fst (dict_set k v kvs) = map fst kvs"
  by (induction kvs) auto

lemma map_of_dict_set_same: "map_of (dict_set k v kvs) k = Some v"
  by (induction kvs) auto

lemma map_of_dict_set_other: "k' \<noteq> k \<Longrightarrow> map_of (dict_set k v kvs) k' = map_of kvs k'"
  by (induction kvs) auto

lemma dict_set_twice: "dict_set k v (dict_set k v' kvs) = dict_set k v kvs"
  by (induction kvs) auto

lemma map_of_dict_del_other: "k' \<noteq> k \<Longrightarrow> map_of (dict_del k kvs) k' = map_of kvs k'"
  by (induction kvs) (auto simp: dict_del_def)

lemma map_of_dict_del_same: "map_of (dict_del k kvs) k = None"
  by (induction kvs) (auto simp: dict_del_def)

lemma keys_dict_del: "map fst (dict_del k kvs) = filter (\<lambda>k'. k' \<noteq> k) (map fst kvs)"
  by (induction kvs) (auto simp: dict_del_def)

lemma map_of_Some_key: "map_of kvs k = Some v \<Longrightarrow> k \<in> set (map fst kvs)"
  by (induction kvs) (auto split: if_splits)

lemma dict_del_absent: "k \<notin> fst ` set kvs \<Longrightarrow> dict_del k kvs = kvs"
  by (induction kvs) (auto simp: dict_del_def)

subsection \<open>The loops compute the stripped document and the number of \<open>fixes\<close>\<close>

lemma fix_result_Inr:
  "fix_result x c = Inr (x', c') \<Longrightarrow> x' = strip_result x \<and> c' = c + (if has_fixes x then 1 else 0)"
  by (cases x) (auto simp: has_fixes_def dict_del_absent split: if_splits)

lemma results_loop_Inr:
  "results_loop xs c = Inr (xs', c') \<Longrightarrow>
     xs' = map strip_result xs \<and> c' = c + length (filter has_fixes xs)"
proof (induction xs arbitrary: c xs' c')
  case Nil
  then show ?case by simp
next
  case (Cons x xs)
  from Cons.prems obtain y c1 ys where
    a: "fix_result x c = Inr (y, c1)" and b: "results_loop xs c1 = Inr (ys, c')" and c: "xs' = y # ys"
    by (auto split: sum.splits prod.splits)
  from fix_result_Inr [OF a] Cons.IH [OF b] c show ?case by auto
qed

lemma strings_no_fixes: "filter has_fixes (map (\<lambda>x. JStr (f x)) xs) = []"
  by (induction xs) (auto simp: has_fixes_def)

lemma strings_strip: "map strip_result (map (\<lambda>x. JStr (f x)) xs) = map (\<lambda>x. JStr (f x)) xs"
  by (induction xs) auto

lemma fix_run_Inr:
  assumes "fix_run r c = Inr (r', c')"
  shows "r' = strip_run r \<and> c' = c + length (filter has_fixes (results_of r))"
proof (cases r)
  case (JObj kvs)
  show ?thesis
  proof (cases "map_of kvs ''results''")
    case None
    with assms JObj have "r' = JObj kvs" "c' = c" by auto
    with JObj None show ?thesis by (simp add: results_of_def)
  next
    case (Some rv)
    from assms JObj Some obtain items items' where
      it: "py_iter rv = Inr items" and lp: "results_loop items c = Inr (items', c')"
      by (auto split: sum.splits prod.splits json.splits)
    note r = results_loop_Inr [OF lp]
    show ?thesis
    proof (cases rv)
      case (JArr xs)
      with assms JObj Some it lp r show ?thesis by (auto simp: results_of_def)
    next
      case (JObj okvs)
      with assms \<open>r = JObj kvs\<close> Some it lp r show ?thesis
        by (auto simp: results_of_def strings_no_fixes)
    next
      case (JStr s)
      with assms \<open>r = JObj kvs\<close> Some it lp r show ?thesis
        by (auto simp: results_of_def strings_no_fixes)
    qed (use it in auto)
  qed
qed (use assms in auto)

lemma runs_loop_Inr:
  "runs_loop rs c = Inr (rs', c') \<Longrightarrow>
     rs' = map strip_run rs \<and> c' = c + length (filter has_fixes (concat (map results_of rs)))"
proof (induction rs arbitrary: c rs' c')
  case Nil
  then show ?case by simp
next
  case (Cons x xs)
  from Cons.prems obtain y c1 ys where
    a: "fix_run x c = Inr (y, c1)" and b: "runs_loop xs c1 = Inr (ys, c')" and c: "rs' = y # ys"
    by (auto split: sum.splits prod.splits)
  from fix_run_Inr [OF a] Cons.IH [OF b] c show ?case by auto
qed

lemma runs_loop_strings: "runs_loop (map (\<lambda>x. JStr (f x)) xs) c = Inr (ys, c') \<Longrightarrow> xs = []"
  by (cases xs) auto

lemma fix_data_Inr:
  assumes "fix_data d = Inr (d', n)"
  shows "d' = strip_doc d \<and> n = count_fixes d"
proof (cases d)
  case (JObj kvs)
  show ?thesis
  proof (cases "map_of kvs ''runs''")
    case None
    with assms JObj have "d' = JObj kvs" "n = 0" by auto
    with JObj None show ?thesis by (simp add: count_fixes_def result_objects_def runs_of_def)
  next
    case (Some rv)
    from assms JObj Some obtain items items' where
      it: "py_iter rv = Inr items" and lp: "runs_loop items 0 = Inr (items', n)"
      by (auto split: sum.splits prod.splits json.splits)
    note r = runs_loop_Inr [OF lp]
    show ?thesis
    proof (cases rv)
      case (JArr xs)
      with assms JObj Some it lp r show ?thesis
        by (auto simp: count_fixes_def result_objects_def runs_of_def)
    next
      case (JObj okvs)
      with it lp have "okvs = []" by (auto dest: runs_loop_strings)
      with JObj assms \<open>d = JObj kvs\<close> Some show ?thesis
        by (auto simp: count_fixes_def result_objects_def runs_of_def)
    next
      case (JStr s)
      with it lp have "s = []" by (auto dest: runs_loop_strings)
      with JStr assms \<open>d = JObj kvs\<close> Some show ?thesis
        by (auto simp: count_fixes_def result_objects_def runs_of_def)
    qed (use it in auto)
  qed
qed (use assms in auto)

subsection \<open>The \<open>try\<close> body and the handler\<close>

lemma try_body_success:
  assumes "read_file input_file w = Inr text" and "json_load lib text = Inr d"
    and "fix_data d = Inr (d', n)" and "writable w output_file"
  shows "try_body lib input_file output_file w =
           (Inr n, w\<lparr>files := (files w)(output_file \<mapsto> json_dump lib d')\<rparr>)"
  using assms by (simp add: try_body_def write_file_def)

lemma try_body_Inr:
  assumes "try_body lib input_file output_file w = (Inr n, w')"
  shows "\<exists>text d d'. read_file input_file w = Inr text \<and> json_load lib text = Inr d \<and>
           fix_data d = Inr (d', n) \<and> writable w output_file \<and>
           w' = w\<lparr>files := (files w)(output_file \<mapsto> json_dump lib d')\<rparr>"
  using assms
  by (auto simp: try_body_def write_file_def split: sum.splits prod.splits if_splits)

lemma try_body_Inl: "try_body lib input_file output_file w = (Inl e, w') \<Longrightarrow> w' = w"
  by (auto simp: try_body_def split: sum.splits prod.splits)

lemma except_handler_Inl: "fst (except_handler e input_file output_file w) = Inl e"
  by (simp add: except_handler_def Let_def split: sum.splits)

lemma fix_gosec_sarif_Inr:
  "fix_gosec_sarif lib input_file output_file w = (Inr n, w') \<longleftrightarrow>
     try_body lib input_file output_file w = (Inr n, w')"
proof (cases "try_body lib input_file output_file w")
  case (Pair r w1)
  show ?thesis
  proof (cases r)
    case (Inl e)
    with Pair except_handler_Inl [of e input_file output_file w1] show ?thesis
      by (auto simp: fix_gosec_sarif_def)
  next
    case (Inr m)
    with Pair show ?thesis by (simp add: fix_gosec_sarif_def)
  qed
qed

lemma fix_gosec_sarif_Inl:
  "try_body lib input_file output_file w = (Inl e, w') \<Longrightarrow>
     fix_gosec_sarif lib input_file output_file w = except_handler e input_file output_file w"
  by (frule try_body_Inl) (simp add: fix_gosec_sarif_def)

subsection \<open>C7: the example of the specification\<close>

text \<open>
  C7. When the input file holds the document
  \<open>{"runs":[{"results":[{"ruleId":"G101","fixes":[{"description":"x"}]},{"ruleId":"G102"}]}]}\<close>
  and the output path can be written, \<open>fix_gosec_sarif\<close> returns the count 1 and
  leaves at the output path the serialisation of
  \<open>{"runs":[{"results":[{"ruleId":"G101"},{"ruleId":"G102"}]}]}\<close>; nothing else in the
  world changes.
\<close>

theorem example_fixed:
  assumes "read_file input_file w = Inr text" and "json_load lib text = Inr example_input"
    and "writable w output_file"
  shows "fix_gosec_sarif lib input_file output_file w =
           (Inr 1, w\<lparr>files := (files w)(output_file \<mapsto> json_dump lib example_output)\<rparr>)"
proof -
  have "fix_data example_input = Inr (example_output, 1)"
    by (simp add: example_input_def example_output_def dict_del_def)
  from try_body_success [OF assms(1,2) this assms(3)] show ?thesis
    by (simp add: fix_gosec_sarif_def)
qed

theorem example_fixed_witness:
  "fst (fix_gosec_sarif example_lib ''gosec-raw.sarif'' ''gosec.sarif'' example_world) = Inr 1 \<and>
   files (snd (fix_gosec_sarif example_lib ''gosec-raw.sarif'' ''gosec.sarif'' example_world))
     ''gosec.sarif'' = Some ''{runs:[{results:[{ruleId:G101},{ruleId:G102}]}]}''"
proof -
  have r: "read_file ''gosec-raw.sarif'' example_world =
      Inr ''{runs:[{results:[{ruleId:G101,fixes:[{description:x}]},{ruleId:G102}]}]}''"
    by (simp add: read_file_def example_world_def world_of_def)
  have l: "json_load example_lib
      ''{runs:[{results:[{ruleId:G101,fixes:[{description:x}]},{ruleId:G102}]}]}'' = Inr example_input"
    by (simp add: example_lib_def table_lib_def)
  have w: "writable example_world ''gosec.sarif''"
    by (simp add: example_world_def world_of_def)
  have d: "json_dump example_lib example_output = ''{runs:[{results:[{ruleId:G101},{ruleId:G102}]}]}''"
    by (simp add: example_lib_def table_lib_def example_input_def example_output_def)
  from example_fixed [OF r l w] d show ?thesis by simp
qed

subsection \<open>C3: the input file is missing\<close>

text \<open>
  C3. When no file exists at the input path \<open>gosec-raw.sarif\<close>, \<open>main\<close> exits with
  status 1 after printing to standard error the line that names the missing input file,
  and does nothing else: no file is created or changed, the output path included.
\<close>

theorem missing_input_exits_1:
  assumes "files w ''gosec-raw.sarif'' = None"
  shows "main lib w = (1, print Stderr (InputNotFound ''gosec-raw.sarif'') w) \<and>
         files (snd (main lib w)) = files w \<and>
         console (snd (main lib w)) = console w @ [(Stderr, InputNotFound ''gosec-raw.sarif'')]"
  using assms by (simp add: main_def print_def)

theorem missing_input_exits_1_witness:
  "files (world_of [(''gosec.sarif'', ''old'')] []) ''gosec-raw.sarif'' = None \<and>
   fst (main example_lib (world_of [(''gosec.sarif'', ''old'')] [])) = 1 \<and>
   files (snd (main example_lib (world_of [(''gosec.sarif'', ''old'')] []))) ''gosec.sarif'' = Some ''old'' \<and>
   console (snd (main example_lib (world_of [(''gosec.sarif'', ''old'')] []))) =
     [(Stderr, InputNotFound ''gosec-raw.sarif'')]"
proof -
  have h: "files (world_of [(''gosec.sarif'', ''old'')] []) ''gosec-raw.sarif'' = None"
    by (simp add: world_of_def)
  from missing_input_exits_1 [OF h, of example_lib] h show ?thesis
    by (simp add: world_of_def print_def)
qed

subsection \<open>C4: a failure inside the \<open>try\<close>\<close>

lemma try_body_bad_json:
  "read_file input_file w = Inr text \<Longrightarrow> json_load lib text = Inl e \<Longrightarrow>
     try_body lib input_file output_file w = (Inl e, w)"
  by (simp add: try_body_def)

lemma try_body_unwritable:
  "read_file input_file w = Inr text \<Longrightarrow> json_load lib text = Inr d \<Longrightarrow>
   fix_data d = Inr (d', n) \<Longrightarrow> \<not> writable w output_file \<Longrightarrow>
     try_body lib input_file output_file w = (Inl PermissionError, w)"
  by (simp add: try_body_def write_file_def)

lemma shutil_copy_Inr:
  "shutil_copy src dst w = Inr w' \<Longrightarrow>
     files w' dst = files w src \<and> files w src \<noteq> None \<and>
     (\<forall>p. p \<noteq> dst \<longrightarrow> files w' p = files w p) \<and> console w' = console w"
  by (auto simp: shutil_copy_def read_file_def write_file_def
      split: if_splits option.splits sum.splits)

text \<open>
  C4. When the body of the \<open>try\<close> raises \<open>e\<close> (the input is not valid JSON, the output
  cannot be written, or anything else), \<open>fix_gosec_sarif\<close> runs the handler: it reports
  \<open>e\<close>, attempts to copy the input file to the output path, and either reports the copy
  (the output then holds the text of the input) or reports the exception of the copy with
  a message of its own; in both cases it re-raises \<open>e\<close>, and \<open>main\<close> exits with status 1.
\<close>

theorem processing_failure_fallback:
  assumes "try_body lib input_file output_file w = (Inl e, w1)"
  shows "fix_gosec_sarif lib input_file output_file w =
           except_handler e input_file output_file w \<and>
         fst (fix_gosec_sarif lib input_file output_file w) = Inl e \<and>
         (\<forall>w2. shutil_copy input_file output_file (print Stderr (ErrorFixing e) w) = Inr w2 \<longrightarrow>
            snd (fix_gosec_sarif lib input_file output_file w) =
              print Stderr (CopiedRaw output_file) w2 \<and>
            files (snd (fix_gosec_sarif lib input_file output_file w)) output_file =
              files w input_file) \<and>
         (\<forall>copy_error.
            shutil_copy input_file output_file (print Stderr (ErrorFixing e) w) = Inl copy_error \<longrightarrow>
            snd (fix_gosec_sarif lib input_file output_file w) =
              print Stderr (FailedCopy copy_error) (print Stderr (ErrorFixing e) w)) \<and>
         (input_file = ''gosec-raw.sarif'' \<and> output_file = ''gosec.sarif'' \<longrightarrow>
            fst (main lib w) = 1)"
proof -
  have a: "fix_gosec_sarif lib input_file output_file w =
           except_handler e input_file output_file w"
    using assms by (rule fix_gosec_sarif_Inl)
  have b: "fst (fix_gosec_sarif lib input_file output_file w) = Inl e"
    by (simp add: a except_handler_Inl)
  have c: "snd (fix_gosec_sarif lib input_file output_file w) =
              print Stderr (CopiedRaw output_file) w2 \<and>
            files (snd (fix_gosec_sarif lib input_file output_file w)) output_file =
              files w input_file"
    if "shutil_copy input_file output_file (print Stderr (ErrorFixing e) w) = Inr w2" for w2
    using that shutil_copy_Inr [OF that] by (simp add: a except_handler_def print_def)
  have d: "snd (fix_gosec_sarif lib input_file output_file w) =
              print Stderr (FailedCopy copy_error) (print Stderr (ErrorFixing e) w)"
    if "shutil_copy input_file output_file (print Stderr (ErrorFixing e) w) = Inl copy_error"
    for copy_error
    using that by (simp add: a except_handler_def)
  have m: "fst (main lib w) = 1"
    if "input_file = ''gosec-raw.sarif'' \<and> output_file = ''gosec.sarif''"
  proof -
    from that b have "fst (fix_gosec_sarif lib ''gosec-raw.sarif'' ''gosec.sarif'' w) = Inl e"
      by simp
    then show ?thesis
      by (cases "fix_gosec_sarif lib ''gosec-raw.sarif'' ''gosec.sarif'' w")
         (simp add: main_def Let_def)
  qed
  from a b c d m show ?thesis by blast
qed


theorem processing_failure_fallback_witness:
  "fst (fix_gosec_sarif (table_lib []) ''gosec-raw.sarif'' ''gosec.sarif''
          (world_of [(''gosec-raw.sarif'', ''not json'')] [])) = Inl JSONDecodeError \<and>
   files (snd (fix_gosec_sarif (table_lib []) ''gosec-raw.sarif'' ''gosec.sarif''
          (world_of [(''gosec-raw.sarif'', ''not json'')] []))) ''gosec.sarif'' = Some ''not json'' \<and>
   console (snd (fix_gosec_sarif (table_lib []) ''gosec-raw.sarif'' ''gosec.sarif''
          (world_of [(''gosec-raw.sarif'', ''not json'')] []))) =
     [(Stderr, ErrorFixing JSONDecodeError), (Stderr, CopiedRaw ''gosec.sarif'')] \<and>
   fst (main (table_lib []) (world_of [(''gosec-raw.sarif'', ''not json'')] [])) = 1 \<and>
   fst (fix_gosec_sarif example_lib ''gosec-raw.sarif'' ''gosec.sarif''
          (world_of [(''gosec-raw.sarif'', ''{runs:[{results:[{ruleId:G101},{ruleId:G102}]}]}'')]
             [''gosec.sarif''])) = Inl PermissionError \<and>
   files (snd (fix_gosec_sarif example_lib ''gosec-raw.sarif'' ''gosec.sarif''
          (world_of [(''gosec-raw.sarif'', ''{runs:[{results:[{ruleId:G101},{ruleId:G102}]}]}'')]
             [''gosec.sarif'']))) ''gosec.sarif'' = None \<and>
   console (snd (fix_gosec_sarif example_lib ''gosec-raw.sarif'' ''gosec.sarif''
          (world_of [(''gosec-raw.sarif'', ''{runs:[{results:[{ruleId:G101},{ruleId:G102}]}]}'')]
             [''gosec.sarif'']))) =
     [(Stderr, ErrorFixing PermissionError), (Stderr, FailedCopy PermissionError)] \<and>
   fst (main example_lib
          (world_of [(''gosec-raw.sarif'', ''{runs:[{results:[{ruleId:G101},{ruleId:G102}]}]}'')]
             [''gosec.sarif''])) = 1"
proof -
  let ?w = "world_of [(''gosec-raw.sarif'', ''not json'')] []"
  let ?v = "world_of [(''gosec-raw.sarif'', ''{runs:[{results:[{ruleId:G101},{ruleId:G102}]}]}'')]
             [''gosec.sarif'']"
  have r: "read_file ''gosec-raw.sarif'' ?w = Inr ''not json''"
    by (simp add: read_file_def world_of_def)
  have l: "json_load (table_lib []) ''not json'' = Inl JSONDecodeError"
    by (simp add: table_lib_def)
  have cp: "shutil_copy ''gosec-raw.sarif'' ''gosec.sarif''
              (print Stderr (ErrorFixing JSONDecodeError) ?w) =
            Inr ((print Stderr (ErrorFixing JSONDecodeError) ?w)
                   \<lparr>files := (files ?w)(''gosec.sarif'' \<mapsto> ''not json'')\<rparr>)"
    by (simp add: shutil_copy_def read_file_def write_file_def print_def world_of_def)
  note A = processing_failure_fallback
    [OF try_body_bad_json [OF r l, of "''gosec.sarif''"], THEN conjunct2]
  have r': "read_file ''gosec-raw.sarif'' ?v = Inr ''{runs:[{results:[{ruleId:G101},{ruleId:G102}]}]}''"
    by (simp add: read_file_def world_of_def)
  have l': "json_load example_lib ''{runs:[{results:[{ruleId:G101},{ruleId:G102}]}]}'' =
              Inr example_output"
    by (simp add: example_lib_def table_lib_def)
  have f': "fix_data example_output = Inr (example_output, 0)"
    by (simp add: example_output_def)
  have nw: "\<not> writable ?v ''gosec.sarif''" by (simp add: world_of_def)
  have cp': "shutil_copy ''gosec-raw.sarif'' ''gosec.sarif''
              (print Stderr (ErrorFixing PermissionError) ?v) = Inl PermissionError"
    by (simp add: shutil_copy_def read_file_def write_file_def print_def world_of_def)
  note B = processing_failure_fallback [OF try_body_unwritable [OF r' l' f' nw], THEN conjunct2]
  from A cp have a: "fst (fix_gosec_sarif (table_lib []) ''gosec-raw.sarif'' ''gosec.sarif'' ?w) =
      Inl JSONDecodeError"
    "snd (fix_gosec_sarif (table_lib []) ''gosec-raw.sarif'' ''gosec.sarif'' ?w) =
       print Stderr (CopiedRaw ''gosec.sarif'')
         ((print Stderr (ErrorFixing JSONDecodeError) ?w)
            \<lparr>files := (files ?w)(''gosec.sarif'' \<mapsto> ''not json'')\<rparr>)"
    "fst (main (table_lib []) ?w) = 1"
    by simp_all
  from B cp' have b: "fst (fix_gosec_sarif example_lib ''gosec-raw.sarif'' ''gosec.sarif'' ?v) =
      Inl PermissionError"
    "snd (fix_gosec_sarif example_lib ''gosec-raw.sarif'' ''gosec.sarif'' ?v) =
       print Stderr (FailedCopy PermissionError) (print Stderr (ErrorFixing PermissionError) ?v)"
    "fst (main example_lib ?v) = 1"
    by simp_all
  show ?thesis
    unfolding a b by (simp add: print_def world_of_def)
qed

subsection \<open>C10: a top-level value that is not an object\<close>

lemma fix_data_not_object: "\<not> is_object d \<Longrightarrow> fix_data d = Inl AttributeError"
  by (cases d) auto

text \<open>
  C10. When the input parses to a value that is not an object (an array, a string, a
  number, a boolean, null), \<open>data.get\<close> raises \<open>AttributeError\<close>: \<open>fix_gosec_sarif\<close>
  takes the handler with its raw copy and re-raises, and does not return the count 0.
\<close>

theorem top_level_not_object_fails:
  assumes "read_file input_file w = Inr text" and "json_load lib text = Inr d"
    and "\<not> is_object d"
  shows "fix_data d = Inl AttributeError \<and>
         fix_gosec_sarif lib input_file output_file w =
           except_handler AttributeError input_file output_file w \<and>
         fst (fix_gosec_sarif lib input_file output_file w) = Inl AttributeError \<and>
         fst (fix_gosec_sarif lib input_file output_file w) \<noteq> Inr 0"
proof -
  have a: "fix_data d = Inl AttributeError" using assms(3) by (rule fix_data_not_object)
  with assms have "try_body lib input_file output_file w = (Inl AttributeError, w)"
    by (simp add: try_body_def)
  then have b: "fix_gosec_sarif lib input_file output_file w =
           except_handler AttributeError input_file output_file w"
    by (rule fix_gosec_sarif_Inl)
  with a show ?thesis by (simp add: except_handler_Inl)
qed


theorem top_level_not_object_fails_witness:
  "\<not> is_object (JArr []) \<and>
   fst (fix_gosec_sarif (table_lib [(''[]'', JArr [])]) ''gosec-raw.sarif'' ''gosec.sarif''
          (world_of [(''gosec-raw.sarif'', ''[]'')] [])) = Inl AttributeError \<and>
   files (snd (fix_gosec_sarif (table_lib [(''[]'', JArr [])]) ''gosec-raw.sarif'' ''gosec.sarif''
          (world_of [(''gosec-raw.sarif'', ''[]'')] []))) ''gosec.sarif'' = Some ''[]'' \<and>
   console (snd (fix_gosec_sarif (table_lib [(''[]'', JArr [])]) ''gosec-raw.sarif'' ''gosec.sarif''
          (world_of [(''gosec-raw.sarif'', ''[]'')] []))) =
     [(Stderr, ErrorFixing AttributeError), (Stderr, CopiedRaw ''gosec.sarif'')]"
proof -
  have r: "read_file ''gosec-raw.sarif'' (world_of [(''gosec-raw.sarif'', ''[]'')] []) = Inr ''[]''"
    by (simp add: read_file_def world_of_def)
  have l: "json_load (table_lib [(''[]'', JArr [])]) ''[]'' = Inr (JArr [])"
    by (simp add: table_lib_def)
  have o: "\<not> is_object (JArr [])" by simp
  from top_level_not_object_fails [OF r l o, of "''gosec.sarif''"] show ?thesis
    by (simp add: except_handler_def shutil_copy_def read_file_def write_file_def print_def
        world_of_def)
qed

subsection \<open>Documents of the data model are processed without an exception\<close>

lemma fix_result_object:
  "is_object x \<Longrightarrow>
     fix_result x c = Inr (strip_result x, c + (if has_fixes x then 1 else 0))"
  by (cases x) (auto simp: has_fixes_def dict_del_absent)

lemma results_loop_objects:
  "list_all is_object xs \<Longrightarrow>
     results_loop xs c = Inr (map strip_result xs, c + length (filter has_fixes xs))"
  by (induction xs arbitrary: c) (simp_all add: fix_result_object)

lemma fix_run_shaped:
  assumes "is_object r" and "absent_or_objects (field ''results'' r)"
  shows "fix_run r c = Inr (strip_run r, c + length (filter has_fixes (results_of r)))"
proof -
  from assms(1) obtain kvs where r: "r = JObj kvs" by (cases r) auto
  show ?thesis
  proof (cases "map_of kvs ''results''")
    case None
    with r show ?thesis by (simp add: results_of_def)
  next
    case (Some rv)
    with assms(2) r obtain xs where rv: "rv = JArr xs" and xs: "list_all is_object xs"
      by (cases rv) auto
    with r Some show ?thesis by (simp add: results_of_def results_loop_objects)
  qed
qed

lemma runs_loop_shaped:
  "list_all is_object rs \<Longrightarrow>
   list_all (\<lambda>run. absent_or_objects (field ''results'' run)) rs \<Longrightarrow>
     runs_loop rs c =
       Inr (map strip_run rs, c + length (filter has_fixes (concat (map results_of rs))))"
  by (induction rs arbitrary: c) (simp_all add: fix_run_shaped)

lemma fix_data_shaped:
  assumes "sarif_shaped d"
  shows "fix_data d = Inr (strip_doc d, count_fixes d)"
proof -
  from assms obtain kvs where d: "d = JObj kvs" by (cases d) (auto simp: sarif_shaped_def)
  show ?thesis
  proof (cases "map_of kvs ''runs''")
    case None
    with d show ?thesis by (simp add: count_fixes_def result_objects_def runs_of_def)
  next
    case (Some rv)
    with assms d obtain rs where rv: "rv = JArr rs" and rs: "list_all is_object rs"
      by (cases rv) (auto simp: sarif_shaped_def)
    from assms d Some rv have "list_all (\<lambda>run. absent_or_objects (field ''results'' run)) rs"
      by (simp add: sarif_shaped_def runs_of_def)
    from runs_loop_shaped [OF rs this, of 0] d Some rv show ?thesis
      by (simp add: count_fixes_def result_objects_def runs_of_def)
  qed
qed

subsection \<open>What the stripped document keeps\<close>

lemma runs_of_strip_doc: "runs_of (strip_doc d) = map strip_run (runs_of d)"
proof (cases d)
  case (JObj kvs)
  then show ?thesis
    by (auto simp: runs_of_def map_of_dict_set_same split: option.splits json.splits)
qed (simp_all add: runs_of_def)

lemma results_of_strip_run: "results_of (strip_run r) = map strip_result (results_of r)"
proof (cases r)
  case (JObj kvs)
  then show ?thesis
    by (auto simp: results_of_def map_of_dict_set_same split: option.splits json.splits)
qed (simp_all add: results_of_def)

lemma result_objects_strip_doc:
  "result_objects (strip_doc d) = map strip_result (result_objects d)"
  by (simp add: result_objects_def runs_of_strip_doc map_concat results_of_strip_run comp_def)

lemma not_has_fixes_strip_result: "\<not> has_fixes (strip_result x)"
  by (cases x) (auto simp: has_fixes_def dict_del_def)

lemma count_fixes_strip_doc: "count_fixes (strip_doc d) = 0"
  by (simp add: count_fixes_def result_objects_strip_doc not_has_fixes_strip_result)

lemma dict_set_keys_present:
  "map_of kvs k = Some v' \<Longrightarrow> map fst (dict_set k v kvs) = map fst kvs"
  by (rule dict_set_keys) (rule map_of_Some_key)

lemma keys_strip_doc: "keys (strip_doc d) = keys d"
  by (cases d) (auto simp: dict_set_keys_present split: option.splits json.splits)

lemma keys_strip_run: "keys (strip_run r) = keys r"
  by (cases r) (auto simp: dict_set_keys_present split: option.splits json.splits)

lemma field_strip_doc: "k \<noteq> ''runs'' \<Longrightarrow> field k (strip_doc d) = field k d"
  by (cases d) (auto simp: map_of_dict_set_other split: option.splits json.splits)

lemma field_strip_run: "k \<noteq> ''results'' \<Longrightarrow> field k (strip_run r) = field k r"
  by (cases r) (auto simp: map_of_dict_set_other split: option.splits json.splits)

lemma field_strip_result: "k \<noteq> ''fixes'' \<Longrightarrow> field k (strip_result x) = field k x"
  by (cases x) (auto simp: map_of_dict_del_other)

lemma keys_strip_result: "keys (strip_result x) = filter (\<lambda>k. k \<noteq> ''fixes'') (keys x)"
  by (cases x) (auto simp: keys_dict_del)

lemma strip_result_not_object: "\<not> is_object x \<Longrightarrow> strip_result x = x"
  by (cases x) auto

lemma strip_result_no_fixes: "\<not> has_fixes x \<Longrightarrow> strip_result x = x"
  by (cases x) (auto simp: has_fixes_def dict_del_absent)

lemma strip_result_idem: "strip_result (strip_result x) = strip_result x"
  by (simp add: strip_result_no_fixes not_has_fixes_strip_result)

lemma strip_run_idem: "strip_run (strip_run r) = strip_run r"
  by (cases r)
     (auto simp: map_of_dict_set_same dict_set_twice strip_result_idem comp_def
       split: option.splits json.splits)

lemma strip_doc_idem: "strip_doc (strip_doc d) = strip_doc d"
  by (cases d)
     (auto simp: map_of_dict_set_same dict_set_twice strip_run_idem comp_def
       split: option.splits json.splits)

subsection \<open>Processing a processed document\<close>

lemma fix_result_again: "fix_result x c = Inr (x', c') \<Longrightarrow> fix_result x' c2 = Inr (x', c2)"
  by (cases x) (auto simp: dict_del_def split: if_splits)

lemma results_loop_again:
  "results_loop xs c = Inr (xs', c') \<Longrightarrow> results_loop xs' c2 = Inr (xs', c2)"
proof (induction xs arbitrary: c xs' c' c2)
  case Nil
  then show ?case by auto
next
  case (Cons x xs)
  from Cons.prems obtain y c1 ys where
    a: "fix_result x c = Inr (y, c1)" and b: "results_loop xs c1 = Inr (ys, c')" and c: "xs' = y # ys"
    by (auto split: sum.splits prod.splits)
  from fix_result_again [OF a] Cons.IH [OF b] c show ?case by simp
qed

lemma fix_run_again:
  assumes "fix_run r c = Inr (r', c')"
  shows "fix_run r' c2 = Inr (r', c2)"
proof (cases r)
  case (JObj kvs)
  show ?thesis
  proof (cases "map_of kvs ''results''")
    case None
    with assms JObj show ?thesis by auto
  next
    case (Some rv)
    from assms JObj Some obtain items items' where
      it: "py_iter rv = Inr items" and lp: "results_loop items c = Inr (items', c')"
      by (auto split: sum.splits prod.splits json.splits)
    note r = results_loop_Inr [OF lp]
    note again = results_loop_again [OF lp, of c2]
    show ?thesis
    proof (cases rv)
      case (JArr xs)
      with assms JObj Some it lp again show ?thesis
        by (auto simp: map_of_dict_set_same dict_set_twice)
    next
      case (JObj okvs)
      with it r have "items' = items" by (auto simp: strings_strip)
      with JObj assms \<open>r = JObj kvs\<close> Some it lp again show ?thesis by auto
    next
      case (JStr s)
      with it r have "items' = items" by (auto simp: strings_strip)
      with JStr assms \<open>r = JObj kvs\<close> Some it lp again show ?thesis by auto
    qed (use it in auto)
  qed
qed (use assms in auto)

lemma runs_loop_again:
  "runs_loop rs c = Inr (rs', c') \<Longrightarrow> runs_loop rs' c2 = Inr (rs', c2)"
proof (induction rs arbitrary: c rs' c' c2)
  case Nil
  then show ?case by auto
next
  case (Cons x xs)
  from Cons.prems obtain y c1 ys where
    a: "fix_run x c = Inr (y, c1)" and b: "runs_loop xs c1 = Inr (ys, c')" and c: "rs' = y # ys"
    by (auto split: sum.splits prod.splits)
  from fix_run_again [OF a] Cons.IH [OF b] c show ?case by simp
qed

lemma fix_data_again:
  assumes "fix_data d = Inr (d', n)"
  shows "fix_data d' = Inr (d', 0)"
proof (cases d)
  case (JObj kvs)
  show ?thesis
  proof (cases "map_of kvs ''runs''")
    case None
    with assms JObj show ?thesis by auto
  next
    case (Some rv)
    from assms JObj Some obtain items items' where
      it: "py_iter rv = Inr items" and lp: "runs_loop items 0 = Inr (items', n)"
      by (auto split: sum.splits prod.splits json.splits)
    note again = runs_loop_again [OF lp, of 0]
    show ?thesis
    proof (cases rv)
      case (JArr xs)
      with assms JObj Some it lp again show ?thesis
        by (auto simp: map_of_dict_set_same dict_set_twice)
    next
      case (JObj okvs)
      with it lp have "okvs = []" by (auto dest: runs_loop_strings)
      with JObj assms \<open>d = JObj kvs\<close> Some show ?thesis by auto
    next
      case (JStr s)
      with it lp have "s = []" by (auto dest: runs_loop_strings)
      with JStr assms \<open>d = JObj kvs\<close> Some show ?thesis by auto
    qed (use it in auto)
  qed
qed (use assms in auto)

subsection \<open>C1: every \<open>fixes\<close> of a result object is removed and counted\<close>

text \<open>
  C1, as stated, for every document whose top level parses to an object. The document
  \<open>{"runs": null}\<close> parses to an object and has no result object with \<open>fixes\<close>
  (\<open>k = 0\<close>), the output can be written, and yet \<open>for run in None\<close> raises
  \<open>TypeError\<close>: the function does not return 0.
\<close>

theorem fixes_count_counterexample:
  "json_load (table_lib [(''{runs:null}'', JObj [(''runs'', JNull)])]) ''{runs:null}'' =
     Inr (JObj [(''runs'', JNull)]) \<and>
   is_object (JObj [(''runs'', JNull)]) \<and>
   count_fixes (JObj [(''runs'', JNull)]) = 0 \<and>
   writable (world_of [(''gosec-raw.sarif'', ''{runs:null}'')] []) ''gosec.sarif'' \<and>
   fst (fix_gosec_sarif (table_lib [(''{runs:null}'', JObj [(''runs'', JNull)])])
          ''gosec-raw.sarif'' ''gosec.sarif''
          (world_of [(''gosec-raw.sarif'', ''{runs:null}'')] [])) = Inl TypeError \<and>
   fst (fix_gosec_sarif (table_lib [(''{runs:null}'', JObj [(''runs'', JNull)])])
          ''gosec-raw.sarif'' ''gosec.sarif''
          (world_of [(''gosec-raw.sarif'', ''{runs:null}'')] [])) \<noteq> Inr 0"
  by (simp add: table_lib_def world_of_def count_fixes_def result_objects_def runs_of_def
      fix_gosec_sarif_def try_body_def read_file_def except_handler_def shutil_copy_def
      write_file_def print_def)

text \<open>
  C1, amended. Let the input parse to the document \<open>d\<close>, in which \<open>k\<close> result objects
  have the key \<open>fixes\<close>. Whenever \<open>fix_gosec_sarif\<close> returns, it returns \<open>k\<close>, the
  output file holds the serialisation of \<open>d\<close> with \<open>fixes\<close> deleted from each result
  object, and no result object of that document has the key. It does return when \<open>d\<close>
  is a document of the data model (an object; \<open>runs\<close>, when present, a sequence of
  objects; the \<open>results\<close> of each, when present, a sequence of objects) and the output
  path can be written.
\<close>

theorem fixes_removed_and_counted:
  assumes "read_file input_file w = Inr text" and "json_load lib text = Inr d"
  shows "(sarif_shaped d \<and> writable w output_file \<longrightarrow>
            fst (fix_gosec_sarif lib input_file output_file w) = Inr (count_fixes d)) \<and>
         (\<forall>n w'. fix_gosec_sarif lib input_file output_file w = (Inr n, w') \<longrightarrow>
            n = count_fixes d \<and>
            w' = w\<lparr>files := (files w)(output_file \<mapsto> json_dump lib (strip_doc d))\<rparr> \<and>
            result_objects (strip_doc d) = map strip_result (result_objects d) \<and>
            (\<forall>x \<in> set (result_objects (strip_doc d)). \<not> has_fixes x) \<and>
            count_fixes (strip_doc d) = 0)"
proof -
  have a: "fst (fix_gosec_sarif lib input_file output_file w) = Inr (count_fixes d)"
    if "sarif_shaped d \<and> writable w output_file"
  proof -
    from that have "fix_data d = Inr (strip_doc d, count_fixes d)" by (simp add: fix_data_shaped)
    from try_body_success [OF assms this] that show ?thesis
      by (simp add: fix_gosec_sarif_def)
  qed
  have b: "n = count_fixes d \<and>
           w' = w\<lparr>files := (files w)(output_file \<mapsto> json_dump lib (strip_doc d))\<rparr>"
    if "fix_gosec_sarif lib input_file output_file w = (Inr n, w')" for n w'
  proof -
    from that have "try_body lib input_file output_file w = (Inr n, w')"
      by (simp add: fix_gosec_sarif_Inr)
    from try_body_Inr [OF this] assms obtain d' where
      "fix_data d = Inr (d', n)"
      "w' = w\<lparr>files := (files w)(output_file \<mapsto> json_dump lib d')\<rparr>"
      by auto
    with fix_data_Inr [of d d' n] show ?thesis by simp
  qed
  have c: "\<forall>x \<in> set (result_objects (strip_doc d)). \<not> has_fixes x"
    by (simp add: result_objects_strip_doc not_has_fixes_strip_result)
  from a b c show ?thesis
    by (simp add: result_objects_strip_doc count_fixes_strip_doc)
qed

theorem fixes_removed_and_counted_witness:
  "sarif_shaped example_input \<and> count_fixes example_input = 1 \<and>
   fix_gosec_sarif example_lib ''gosec-raw.sarif'' ''gosec.sarif'' example_world =
     (Inr 1, example_world\<lparr>files := (files example_world)
        (''gosec.sarif'' \<mapsto> ''{runs:[{results:[{ruleId:G101},{ruleId:G102}]}]}'')\<rparr>) \<and>
   strip_doc example_input = example_output \<and>
   result_objects example_output = [JObj [(''ruleId'', JStr ''G101'')], JObj [(''ruleId'', JStr ''G102'')]]"
proof -
  have r: "read_file ''gosec-raw.sarif'' example_world =
      Inr ''{runs:[{results:[{ruleId:G101,fixes:[{description:x}]},{ruleId:G102}]}]}''"
    by (simp add: read_file_def example_world_def world_of_def)
  have l: "json_load example_lib
      ''{runs:[{results:[{ruleId:G101,fixes:[{description:x}]},{ruleId:G102}]}]}'' = Inr example_input"
    by (simp add: example_lib_def table_lib_def)
  have w: "writable example_world ''gosec.sarif''"
    by (simp add: example_world_def world_of_def)
  have s: "sarif_shaped example_input"
    by (simp add: sarif_shaped_def example_input_def runs_of_def)
  have k: "count_fixes example_input = 1"
    by (simp add: count_fixes_def result_objects_def runs_of_def results_of_def has_fixes_def
        example_input_def)
  have st: "strip_doc example_input = example_output"
    by (simp add: example_input_def example_output_def dict_del_def)
  have d: "json_dump example_lib example_output = ''{runs:[{results:[{ruleId:G101},{ruleId:G102}]}]}''"
    by (simp add: example_lib_def table_lib_def example_input_def example_output_def)
  have ro: "result_objects example_output =
      [JObj [(''ruleId'', JStr ''G101'')], JObj [(''ruleId'', JStr ''G102'')]]"
    by (simp add: result_objects_def runs_of_def results_of_def example_output_def)
  note T = fixes_removed_and_counted [OF r l, of "''gosec.sarif''"]
  from T s w k have f: "fst (fix_gosec_sarif example_lib ''gosec-raw.sarif'' ''gosec.sarif'' example_world) = Inr 1"
    by simp
  obtain w' where e: "fix_gosec_sarif example_lib ''gosec-raw.sarif'' ''gosec.sarif'' example_world = (Inr 1, w')"
    using f by (cases "fix_gosec_sarif example_lib ''gosec-raw.sarif'' ''gosec.sarif'' example_world") auto
  from T e have "w' = example_world\<lparr>files := (files example_world)
        (''gosec.sarif'' \<mapsto> json_dump example_lib (strip_doc example_input))\<rparr>"
    by blast
  with e s k st d ro show ?thesis by simp
qed

subsection \<open>The report with two runs, evaluated\<close>

lemma report_texts_differ: "report_text \<noteq> report_fixed_text"
  by (simp add: report_text_def report_fixed_text_def)

lemma report_docs_differ: "report_input \<noteq> report_output"
  by (simp add: report_input_def report_output_def)

lemma report_read: "read_file ''gosec-raw.sarif'' report_world = Inr report_text"
  by (simp add: read_file_def report_world_def world_of_def)

lemma report_load: "json_load report_lib report_text = Inr report_input"
  by (simp add: report_lib_def table_lib_def)

lemma report_load_fixed: "json_load report_lib report_fixed_text = Inr report_output"
  using report_texts_differ by (simp add: report_lib_def table_lib_def)

lemma report_dump: "json_dump report_lib report_output = report_fixed_text"
  using report_docs_differ by (simp add: report_lib_def table_lib_def)

lemma report_fix_data: "fix_data report_input = Inr (report_output, 1)"
  by (simp add: report_input_def report_output_def dict_del_def)

lemma report_strip: "strip_doc report_input = report_output"
  by (simp add: report_input_def report_output_def dict_del_def)

lemma report_writable: "writable report_world p"
  by (simp add: report_world_def world_of_def)

lemma report_run:
  "fix_gosec_sarif report_lib ''gosec-raw.sarif'' ''gosec.sarif'' report_world =
     (Inr 1, report_world\<lparr>files := (files report_world)(''gosec.sarif'' \<mapsto> report_fixed_text)\<rparr>)"
  using try_body_success [OF report_read report_load report_fix_data report_writable, of "''gosec.sarif''"]
  by (simp add: fix_gosec_sarif_def report_dump)

lemma report_runs:
  "runs_of report_input =
     [JObj [(''tool'', JObj [(''fixes'', JInt 1)]), (''fixes'', JArr []),
            (''results'', JArr
               [JObj [(''ruleId'', JStr ''G101''),
                      (''fixes'', JArr [JObj [(''description'', JStr ''x'')]]),
                      (''properties'', JObj [(''fixes'', JBool True)])],
                JObj [(''ruleId'', JStr ''G102'')]])],
      JObj [(''tool'', JObj [])]]"
  by (simp add: runs_of_def report_input_def)

lemma report_shaped: "sarif_shaped report_input"
  by (simp add: sarif_shaped_def report_runs) (simp add: report_input_def)

lemma report_count: "count_fixes report_input = 1"
  by (simp add: count_fixes_def result_objects_def report_runs results_of_def has_fixes_def)

lemma report_output_runs:
  "runs_of report_output =
     [JObj [(''tool'', JObj [(''fixes'', JInt 1)]), (''fixes'', JArr []),
            (''results'', JArr
               [JObj [(''ruleId'', JStr ''G101''),
                      (''properties'', JObj [(''fixes'', JBool True)])],
                JObj [(''ruleId'', JStr ''G102'')]])],
      JObj [(''tool'', JObj [])]]"
  by (simp add: runs_of_def report_output_def)

subsection \<open>C2: everything but \<open>fixes\<close> on result objects is preserved\<close>

lemma strip_doc_frame:
  "keys (strip_doc d) = keys d \<and>
   (\<forall>k. k \<noteq> ''runs'' \<longrightarrow> field k (strip_doc d) = field k d) \<and>
   length (runs_of (strip_doc d)) = length (runs_of d) \<and>
   (\<forall>i<length (runs_of d).
      keys (runs_of (strip_doc d) ! i) = keys (runs_of d ! i) \<and>
      (\<forall>k. k \<noteq> ''results'' \<longrightarrow>
         field k (runs_of (strip_doc d) ! i) = field k (runs_of d ! i)) \<and>
      length (results_of (runs_of (strip_doc d) ! i)) = length (results_of (runs_of d ! i)) \<and>
      (\<forall>j<length (results_of (runs_of d ! i)).
         keys (results_of (runs_of (strip_doc d) ! i) ! j) =
           filter (\<lambda>k. k \<noteq> ''fixes'') (keys (results_of (runs_of d ! i) ! j)) \<and>
         (\<forall>k. k \<noteq> ''fixes'' \<longrightarrow>
            field k (results_of (runs_of (strip_doc d) ! i) ! j) =
            field k (results_of (runs_of d ! i) ! j))))"
  by (simp add: keys_strip_doc field_strip_doc runs_of_strip_doc keys_strip_run field_strip_run
      results_of_strip_run keys_strip_result field_strip_result)

text \<open>
  C2. When \<open>fix_gosec_sarif\<close> returns on an input that parses to \<open>d\<close>, the output file
  holds the serialisation of a document \<open>d'\<close> that is \<open>d\<close> with \<open>fixes\<close> deleted from
  the result objects and nothing else changed (and no other file changes): \<open>d'\<close> has
  the keys of \<open>d\<close> in the same order and the same value under every key but \<open>runs\<close>;
  the runs are as many and in the same order, each with the same keys and the same value
  under every key but \<open>results\<close>; the results of each run are as many and in the same
  order, each with its keys other than \<open>fixes\<close> in the same order and the same value
  under each of them.
\<close>

theorem frame_preserved:
  assumes "read_file input_file w = Inr text" and "json_load lib text = Inr d"
    and "fix_gosec_sarif lib input_file output_file w = (Inr n, w')"
  shows "\<exists>d'. w' = w\<lparr>files := (files w)(output_file \<mapsto> json_dump lib d')\<rparr> \<and>
           d' = strip_doc d \<and>
           keys d' = keys d \<and>
           (\<forall>k. k \<noteq> ''runs'' \<longrightarrow> field k d' = field k d) \<and>
           length (runs_of d') = length (runs_of d) \<and>
           (\<forall>i<length (runs_of d).
              keys (runs_of d' ! i) = keys (runs_of d ! i) \<and>
              (\<forall>k. k \<noteq> ''results'' \<longrightarrow> field k (runs_of d' ! i) = field k (runs_of d ! i)) \<and>
              length (results_of (runs_of d' ! i)) = length (results_of (runs_of d ! i)) \<and>
              (\<forall>j<length (results_of (runs_of d ! i)).
                 keys (results_of (runs_of d' ! i) ! j) =
                   filter (\<lambda>k. k \<noteq> ''fixes'') (keys (results_of (runs_of d ! i) ! j)) \<and>
                 (\<forall>k. k \<noteq> ''fixes'' \<longrightarrow>
                    field k (results_of (runs_of d' ! i) ! j) =
                    field k (results_of (runs_of d ! i) ! j))))"
proof -
  from assms(3) have "try_body lib input_file output_file w = (Inr n, w')"
    by (simp add: fix_gosec_sarif_Inr)
  from try_body_Inr [OF this] assms(1,2) obtain d' where
    f: "fix_data d = Inr (d', n)" and
    w: "w' = w\<lparr>files := (files w)(output_file \<mapsto> json_dump lib d')\<rparr>"
    by auto
  from fix_data_Inr [OF f] have d': "d' = strip_doc d" by simp
  from w d' strip_doc_frame [of d] show ?thesis by blast
qed

theorem frame_preserved_witness:
  "fix_gosec_sarif report_lib ''gosec-raw.sarif'' ''gosec.sarif'' report_world =
     (Inr 1, report_world\<lparr>files := (files report_world)(''gosec.sarif'' \<mapsto> report_fixed_text)\<rparr>) \<and>
   json_load report_lib report_fixed_text = Inr report_output \<and>
   keys report_output = [''version'', ''fixes'', ''runs''] \<and>
   field ''version'' report_output = Some (JStr ''2.1.0'') \<and>
   length (runs_of report_output) = 2 \<and>
   keys (runs_of report_output ! 0) = [''tool'', ''fixes'', ''results''] \<and>
   field ''tool'' (runs_of report_output ! 0) = Some (JObj [(''fixes'', JInt 1)]) \<and>
   runs_of report_output ! 1 = JObj [(''tool'', JObj [])] \<and>
   length (results_of (runs_of report_output ! 0)) = 2 \<and>
   keys (results_of (runs_of report_output ! 0) ! 0) = [''ruleId'', ''properties''] \<and>
   field ''ruleId'' (results_of (runs_of report_output ! 0) ! 0) = Some (JStr ''G101'') \<and>
   results_of (runs_of report_output ! 0) ! 1 = JObj [(''ruleId'', JStr ''G102'')]"
proof -
  from frame_preserved [OF report_read report_load report_run] obtain d' where
    d': "d' = strip_doc report_input"
    and k: "keys d' = keys report_input"
    and f: "\<forall>k. k \<noteq> ''runs'' \<longrightarrow> field k d' = field k report_input"
    by - (elim exE conjE, rule that)
  from f have v: "field ''version'' d' = field ''version'' report_input" by simp
  from d' have o: "d' = report_output" by (simp add: report_strip)
  from k v o have "keys report_output = [''version'', ''fixes'', ''runs'']"
    "field ''version'' report_output = Some (JStr ''2.1.0'')"
    by (simp_all add: report_input_def)
  then show ?thesis
    by (simp add: report_run report_load_fixed report_output_runs results_of_def)
qed

subsection \<open>C9: a \<open>fixes\<close> key anywhere else stays\<close>

text \<open>
  C9. When lines 31 to 36 run without an exception, a \<open>fixes\<close> key at the top level of
  the document, one directly on a run, and whatever lies under the other keys of a
  result (a \<open>fixes\<close> inside its \<open>properties\<close>, say) are as they were; the count is the
  number of elements of \<open>runs[*].results[*]\<close> that have \<open>fixes\<close> as a key of their
  own, and the resulting document differs from the input in those deletions only.
\<close>

theorem fixes_elsewhere_kept:
  assumes "fix_data d = Inr (d', n)"
  shows "field ''fixes'' d' = field ''fixes'' d \<and>
         (\<forall>i<length (runs_of d). field ''fixes'' (runs_of d' ! i) = field ''fixes'' (runs_of d ! i)) \<and>
         (\<forall>i<length (runs_of d). \<forall>j<length (results_of (runs_of d ! i)). \<forall>k. k \<noteq> ''fixes'' \<longrightarrow>
            field k (results_of (runs_of d' ! i) ! j) = field k (results_of (runs_of d ! i) ! j)) \<and>
         n = length (filter has_fixes (result_objects d)) \<and>
         d' = strip_doc d"
proof -
  from fix_data_Inr [OF assms] have d': "d' = strip_doc d" and n: "n = count_fixes d"
    by simp_all
  from strip_doc_frame [of d] d' n show ?thesis
    by (simp add: count_fixes_def)
qed

theorem fixes_elsewhere_kept_witness:
  "fix_data report_input = Inr (report_output, 1) \<and>
   field ''fixes'' report_input = Some (JStr ''top'') \<and>
   field ''fixes'' report_output = Some (JStr ''top'') \<and>
   field ''fixes'' (runs_of report_output ! 0) = Some (JArr []) \<and>
   field ''tool'' (runs_of report_output ! 0) = Some (JObj [(''fixes'', JInt 1)]) \<and>
   field ''properties'' (results_of (runs_of report_output ! 0) ! 0) =
     Some (JObj [(''fixes'', JBool True)]) \<and>
   length (filter has_fixes (result_objects report_input)) = 1"
proof -
  note T = fixes_elsewhere_kept [OF report_fix_data]
  have a: "field ''fixes'' report_input = Some (JStr ''top'')"
    by (simp add: report_input_def)
  from T a have b: "field ''fixes'' report_output = Some (JStr ''top'')" by simp
  from T have c: "length (filter has_fixes (result_objects report_input)) = 1" by simp
  from a b c show ?thesis
    by (simp add: report_fix_data report_output_runs results_of_def)
qed

subsection \<open>C5: an absent \<open>runs\<close> or \<open>results\<close> is an empty sequence\<close>







subsection \<open>C6: running the fixer on its own output\<close>

text \<open>
  C6. Let a first run succeed, and let the parser read the text it wrote back as the
  document that was serialised. A second run, with the first run's output as its input,
  returns the count 0 and writes the same text again.
\<close>

theorem second_run_changes_nothing:
  assumes "read_file input_file w = Inr text" and "json_load lib text = Inr d"
    and "fix_gosec_sarif lib input_file output_file w = (Inr n, w')"
    and "json_load lib (json_dump lib (strip_doc d)) = Inr (strip_doc d)"
    and "readable w output_file" and "writable w output_file2"
  shows "files w' output_file = Some (json_dump lib (strip_doc d)) \<and>
         fix_gosec_sarif lib output_file output_file2 w' =
           (Inr 0, w'\<lparr>files := (files w')(output_file2 \<mapsto> json_dump lib (strip_doc d))\<rparr>) \<and>
         files (snd (fix_gosec_sarif lib output_file output_file2 w')) output_file2 =
           files w' output_file"
proof -
  from assms(3) have "try_body lib input_file output_file w = (Inr n, w')"
    by (simp add: fix_gosec_sarif_Inr)
  from try_body_Inr [OF this] assms(1,2) obtain d' where
    f: "fix_data d = Inr (d', n)" and
    w: "w' = w\<lparr>files := (files w)(output_file \<mapsto> json_dump lib d')\<rparr>"
    by auto
  from fix_data_Inr [OF f] have d': "d' = strip_doc d" by simp
  have again: "fix_data (strip_doc d) = Inr (strip_doc d, 0)"
    using fix_data_again [OF f] d' by simp
  have r: "read_file output_file w' = Inr (json_dump lib (strip_doc d))"
    using w d' assms(5) by (simp add: read_file_def)
  have wr: "writable w' output_file2" using w assms(6) by simp
  from try_body_success [OF r assms(4) again wr]
  have "fix_gosec_sarif lib output_file output_file2 w' =
           (Inr 0, w'\<lparr>files := (files w')(output_file2 \<mapsto> json_dump lib (strip_doc d))\<rparr>)"
    by (simp add: fix_gosec_sarif_def)
  with w d' show ?thesis by simp
qed

theorem second_run_changes_nothing_witness:
  "files (snd (fix_gosec_sarif report_lib ''gosec-raw.sarif'' ''gosec.sarif'' report_world))
     ''gosec.sarif'' = Some report_fixed_text \<and>
   fst (fix_gosec_sarif report_lib ''gosec.sarif'' ''gosec-again.sarif''
          (snd (fix_gosec_sarif report_lib ''gosec-raw.sarif'' ''gosec.sarif'' report_world))) = Inr 0 \<and>
   files (snd (fix_gosec_sarif report_lib ''gosec.sarif'' ''gosec-again.sarif''
          (snd (fix_gosec_sarif report_lib ''gosec-raw.sarif'' ''gosec.sarif'' report_world))))
     ''gosec-again.sarif'' = Some report_fixed_text"
proof -
  have rt: "json_load report_lib (json_dump report_lib (strip_doc report_input)) =
      Inr (strip_doc report_input)"
    by (simp add: report_strip report_dump report_load_fixed)
  have rd: "readable report_world ''gosec.sarif''" by (simp add: report_world_def world_of_def)
  from second_run_changes_nothing [OF report_read report_load report_run rt rd report_writable,
      of "''gosec-again.sarif''"]
  show ?thesis by (simp add: report_run report_strip report_dump)
qed

subsection \<open>C8: \<open>runs\<close> or \<open>results\<close> holding something else than a sequence\<close>

lemma py_iter_not_iterable: "\<not> is_iterable v \<Longrightarrow> py_iter v = Inl TypeError"
  by (cases v) auto

lemma results_loop_chars:
  "results_loop (map (\<lambda>c. JStr [c]) s) n = Inr (map (\<lambda>c. JStr [c]) s, n)"
  by (induction s) auto

lemma results_loop_keys:
  "results_loop (map (\<lambda>kv. JStr (fst kv)) okvs) n =
     (if \<exists>k \<in> set (map fst okvs). str_contains k ''fixes'' then Inl TypeError
      else Inr (map (\<lambda>kv. JStr (fst kv)) okvs, n))"
  by (induction okvs) auto

lemma runs_loop_strings_fail:
  "xs \<noteq> [] \<Longrightarrow> runs_loop (map (\<lambda>x. JStr (f x)) xs) n = Inl AttributeError"
  by (cases xs) auto

lemma fix_run_not_iterable:
  "field ''results'' run = Some v \<Longrightarrow> \<not> is_iterable v \<Longrightarrow> fix_run run n = Inl TypeError"
  by (cases run) (auto simp: py_iter_not_iterable)

lemma runs_loop_member_fails:
  "run \<in> set rs \<Longrightarrow> \<forall>n. \<exists>e. fix_run run n = Inl e \<Longrightarrow> \<exists>e. runs_loop rs n = Inl e"
proof (induction rs arbitrary: n)
  case Nil
  then show ?case by simp
next
  case (Cons r rs)
  show ?case
  proof (cases "fix_run r n")
    case (Inl e)
    then show ?thesis by simp
  next
    case (Inr p)
    obtain r' c where p: "p = (r', c)" by (cases p)
    from Inr Cons.prems(2) have "run \<noteq> r" by (metis sum.distinct(1))
    with Cons.prems(1) have "run \<in> set rs" by simp
    from Cons.IH [OF this Cons.prems(2), of c] obtain e where "runs_loop rs c = Inl e" by blast
    with Inr p show ?thesis by simp
  qed
qed

lemma fix_data_not_iterable_runs:
  "field ''runs'' d = Some v \<Longrightarrow> \<not> is_iterable v \<Longrightarrow> fix_data d = Inl TypeError"
  by (cases d) (auto simp: py_iter_not_iterable)

lemma fix_data_not_iterable_results:
  assumes "run \<in> set (runs_of d)" and "field ''results'' run = Some v" and "\<not> is_iterable v"
  shows "\<exists>e. fix_data d = Inl e"
proof -
  from assms(1) obtain kvs rs where d: "d = JObj kvs" and rv: "map_of kvs ''runs'' = Some (JArr rs)"
    and m: "run \<in> set rs"
    by (cases d; cases "field ''runs'' d"; cases "the (field ''runs'' d)")
       (auto simp: runs_of_def)
  have "\<forall>n. \<exists>e. fix_run run n = Inl e"
    using fix_run_not_iterable [OF assms(2,3)] by blast
  from runs_loop_member_fails [OF m this, of 0] obtain e where "runs_loop rs 0 = Inl e" by blast
  with d rv show ?thesis by simp
qed

lemma failure_is_handled:
  assumes "read_file input_file w = Inr text" and "json_load lib text = Inr d"
    and "fix_data d = Inl e"
  shows "fix_gosec_sarif lib input_file output_file w =
           except_handler e input_file output_file w \<and>
         fst (fix_gosec_sarif lib input_file output_file w) = Inl e \<and>
         (input_file = ''gosec-raw.sarif'' \<and> output_file = ''gosec.sarif'' \<longrightarrow>
            fst (main lib w) = 1)"
proof -
  from assms have "try_body lib input_file output_file w = (Inl e, w)"
    by (simp add: try_body_def)
  then have a: "fix_gosec_sarif lib input_file output_file w =
           except_handler e input_file output_file w"
    by (rule fix_gosec_sarif_Inl)
  then have b: "fst (fix_gosec_sarif lib input_file output_file w) = Inl e"
    by (simp add: except_handler_Inl)
  have "fst (main lib w) = 1"
    if "input_file = ''gosec-raw.sarif'' \<and> output_file = ''gosec.sarif''"
    using that b
    by (cases "fix_gosec_sarif lib ''gosec-raw.sarif'' ''gosec.sarif'' w")
       (simp add: main_def Let_def)
  with a b show ?thesis by blast
qed

text \<open>
  C8, as stated, for every value that is not a sequence. In \<open>{"runs": {}}\<close> the value
  of \<open>runs\<close> is an object: the \<open>for\<close> loop iterates over its keys, of which there are
  none, so the document is processed successfully: count 0, the output written, nothing
  on standard error, exit status 0.
\<close>

theorem non_sequence_runs_counterexample:
  "field ''runs'' (JObj [(''runs'', JObj [])]) = Some (JObj []) \<and>
   \<not> is_sequence (JObj []) \<and>
   json_load (table_lib [(''{runs:{}}'', JObj [(''runs'', JObj [])])]) ''{runs:{}}'' =
     Inr (JObj [(''runs'', JObj [])]) \<and>
   fst (fix_gosec_sarif (table_lib [(''{runs:{}}'', JObj [(''runs'', JObj [])])])
          ''gosec-raw.sarif'' ''gosec.sarif''
          (world_of [(''gosec-raw.sarif'', ''{runs:{}}'')] [])) = Inr 0 \<and>
   files (snd (fix_gosec_sarif (table_lib [(''{runs:{}}'', JObj [(''runs'', JObj [])])])
          ''gosec-raw.sarif'' ''gosec.sarif''
          (world_of [(''gosec-raw.sarif'', ''{runs:{}}'')] []))) ''gosec.sarif'' =
     Some ''{runs:{}}'' \<and>
   console (snd (fix_gosec_sarif (table_lib [(''{runs:{}}'', JObj [(''runs'', JObj [])])])
          ''gosec-raw.sarif'' ''gosec.sarif''
          (world_of [(''gosec-raw.sarif'', ''{runs:{}}'')] []))) = [] \<and>
   fst (main (table_lib [(''{runs:{}}'', JObj [(''runs'', JObj [])])])
          (world_of [(''gosec-raw.sarif'', ''{runs:{}}'')] [])) = 0"
  by (simp add: table_lib_def world_of_def main_def fix_gosec_sarif_def try_body_def
      read_file_def write_file_def print_def)

text \<open>
  C8, amended. When the value of \<open>runs\<close>, or the value of \<open>results\<close> of an element of
  a \<open>runs\<close> sequence, is null, a boolean or a number, lines 31 to 36 raise an
  exception, and it is handled like every other: the handler with its raw copy, the
  exception re-raised, exit status 1. A string or an object in these places is iterated:
  under \<open>runs\<close>, a non-empty one makes \<open>run.get\<close> raise \<open>AttributeError\<close> and an empty
  one is processed successfully with count 0; under \<open>results\<close>, a string raises nothing
  and counts nothing, and an object raises \<open>TypeError\<close> exactly when one of its keys
  contains \<open>fixes\<close>.
\<close>

theorem non_sequence_values:
  "(read_file input_file w = Inr text \<and> json_load lib text = Inr d \<and>
    ((\<exists>v. field ''runs'' d = Some v \<and> \<not> is_iterable v) \<or>
     (\<exists>run \<in> set (runs_of d). \<exists>v. field ''results'' run = Some v \<and> \<not> is_iterable v)) \<longrightarrow>
      (\<exists>e. fix_data d = Inl e \<and>
           fix_gosec_sarif lib input_file output_file w =
             except_handler e input_file output_file w \<and>
           fst (fix_gosec_sarif lib input_file output_file w) = Inl e \<and>
           (input_file = ''gosec-raw.sarif'' \<and> output_file = ''gosec.sarif'' \<longrightarrow>
              fst (main lib w) = 1))) \<and>
   (map_of kvs ''runs'' = Some (JStr s) \<longrightarrow>
      fix_data (JObj kvs) = (if s = [] then Inr (JObj kvs, 0) else Inl AttributeError)) \<and>
   (map_of kvs' ''runs'' = Some (JObj okvs) \<longrightarrow>
      fix_data (JObj kvs') = (if okvs = [] then Inr (JObj kvs', 0) else Inl AttributeError)) \<and>
   (map_of rkvs ''results'' = Some (JStr rs) \<longrightarrow>
      fix_run (JObj rkvs) n = Inr (JObj rkvs, n)) \<and>
   (map_of rkvs' ''results'' = Some (JObj rokvs) \<longrightarrow>
      fix_run (JObj rkvs') n =
        (if \<exists>k \<in> set (map fst rokvs). str_contains k ''fixes'' then Inl TypeError
         else Inr (JObj rkvs', n)))"
proof -
  have a: "\<exists>e. fix_data d = Inl e \<and>
           fix_gosec_sarif lib input_file output_file w =
             except_handler e input_file output_file w \<and>
           fst (fix_gosec_sarif lib input_file output_file w) = Inl e \<and>
           (input_file = ''gosec-raw.sarif'' \<and> output_file = ''gosec.sarif'' \<longrightarrow>
              fst (main lib w) = 1)"
    if h: "read_file input_file w = Inr text \<and> json_load lib text = Inr d \<and>
    ((\<exists>v. field ''runs'' d = Some v \<and> \<not> is_iterable v) \<or>
     (\<exists>run \<in> set (runs_of d). \<exists>v. field ''results'' run = Some v \<and> \<not> is_iterable v))"
  proof -
    from h have "\<exists>e. fix_data d = Inl e"
      using fix_data_not_iterable_runs fix_data_not_iterable_results by blast
    then obtain e where e: "fix_data d = Inl e" ..
    from h have r: "read_file input_file w = Inr text" and l: "json_load lib text = Inr d"
      by simp_all
    from failure_is_handled [OF r l e] e show ?thesis by blast
  qed
  have b: "fix_data (JObj kvs) = (if s = [] then Inr (JObj kvs, 0) else Inl AttributeError)"
    if "map_of kvs ''runs'' = Some (JStr s)"
    using that runs_loop_strings_fail [of s "\<lambda>c. [c]" 0] by simp
  have c: "fix_data (JObj kvs') = (if okvs = [] then Inr (JObj kvs', 0) else Inl AttributeError)"
    if "map_of kvs' ''runs'' = Some (JObj okvs)"
    using that runs_loop_strings_fail [of okvs fst 0] by simp
  have d: "fix_run (JObj rkvs) n = Inr (JObj rkvs, n)"
    if "map_of rkvs ''results'' = Some (JStr rs)"
    using that by (simp add: results_loop_chars)
  have e: "fix_run (JObj rkvs') n =
        (if \<exists>k \<in> set (map fst rokvs). str_contains k ''fixes'' then Inl TypeError
         else Inr (JObj rkvs', n))"
    if "map_of rkvs' ''results'' = Some (JObj rokvs)"
    using that by (simp add: results_loop_keys)
  from a b c d e show ?thesis by blast
qed

theorem non_sequence_values_witness:
  "fst (fix_gosec_sarif
          (table_lib [(''{runs:[{results:5}]}'', JObj [(''runs'', JArr [JObj [(''results'', JInt 5)]])])])
          ''gosec-raw.sarif'' ''gosec.sarif''
          (world_of [(''gosec-raw.sarif'', ''{runs:[{results:5}]}'')] [])) = Inl TypeError \<and>
   fst (main
          (table_lib [(''{runs:[{results:5}]}'', JObj [(''runs'', JArr [JObj [(''results'', JInt 5)]])])])
          (world_of [(''gosec-raw.sarif'', ''{runs:[{results:5}]}'')] [])) = 1 \<and>
   fix_data (JObj [(''runs'', JStr ''ab'')]) = Inl AttributeError \<and>
   fix_data (JObj [(''runs'', JObj [(''a'', JNull)])]) = Inl AttributeError \<and>
   fix_run (JObj [(''results'', JStr ''fixes'')]) 2 = Inr (JObj [(''results'', JStr ''fixes'')], 2) \<and>
   fix_run (JObj [(''results'', JObj [(''fixes'', JNull)])]) 2 = Inl TypeError"
proof -
  let ?d = "JObj [(''runs'', JArr [JObj [(''results'', JInt 5)]])]"
  let ?lib = "table_lib [(''{runs:[{results:5}]}'', ?d)]"
  let ?w = "world_of [(''gosec-raw.sarif'', ''{runs:[{results:5}]}'')] []"
  have h1: "read_file ''gosec-raw.sarif'' ?w = Inr ''{runs:[{results:5}]}''"
    by (simp add: read_file_def world_of_def)
  have h2: "json_load ?lib ''{runs:[{results:5}]}'' = Inr ?d" by (simp add: table_lib_def)
  have h3: "\<exists>run \<in> set (runs_of ?d). \<exists>v. field ''results'' run = Some v \<and> \<not> is_iterable v"
    by (simp add: runs_of_def)
  have h4: "map_of [(''runs'', JStr ''ab'')] ''runs'' = Some (JStr ''ab'')" by simp
  have h5: "map_of [(''runs'', JObj [(''a'', JNull)])] ''runs'' = Some (JObj [(''a'', JNull)])"
    by simp
  have h6: "map_of [(''results'', JStr ''fixes'')] ''results'' = Some (JStr ''fixes'')" by simp
  have h7: "map_of [(''results'', JObj [(''fixes'', JNull)])] ''results'' =
      Some (JObj [(''fixes'', JNull)])" by simp
  have e: "fix_data ?d = Inl TypeError" by simp
  note T = non_sequence_values [of "''gosec-raw.sarif''" ?w "''{runs:[{results:5}]}''" ?lib ?d
      "''gosec.sarif''" "[(''runs'', JStr ''ab'')]" "''ab''"
      "[(''runs'', JObj [(''a'', JNull)])]" "[(''a'', JNull)]"
      "[(''results'', JStr ''fixes'')]" "''fixes''" 2
      "[(''results'', JObj [(''fixes'', JNull)])]" "[(''fixes'', JNull)]"]
  from T h1 h2 h3 e have a:
    "fst (fix_gosec_sarif ?lib ''gosec-raw.sarif'' ''gosec.sarif'' ?w) = Inl TypeError"
    "fst (main ?lib ?w) = 1"
    by auto
  from T h4 h5 h6 h7 have b:
    "fix_data (JObj [(''runs'', JStr ''ab'')]) = Inl AttributeError"
    "fix_data (JObj [(''runs'', JObj [(''a'', JNull)])]) = Inl AttributeError"
    "fix_run (JObj [(''results'', JStr ''fixes'')]) 2 = Inr (JObj [(''results'', JStr ''fixes'')], 2)"
    "fix_run (JObj [(''results'', JObj [(''fixes'', JNull)])]) 2 = Inl TypeError"
    by simp_all
  from a b show ?thesis by simp
qed

end
